theory Spec2Isabelle
  imports Main
begin

section \<open>Python values\<close>

text \<open>
  A Python \<open>str\<close> is a sequence of Unicode code points. The archive file is read with
  \<open>encoding='utf-8'\<close>, so the text handled by \<open>load_twitter_data\<close> is a list of code
  points; \<open>str\<close> turns an ASCII literal into such a list.
\<close>

type_synonym pystr = "nat list"

definition str :: "string \<Rightarrow> pystr" where
  "str s = map of_char s"

text \<open>
  The values \<open>json.loads\<close> returns. A dict is kept as its items in insertion order
  (one item per key, as in any Python dict). Floats are never inspected by the code.
\<close>

datatype pyfloat = Finite int int | PosInf | NegInf | NaN

datatype json =
    JNull
  | JBool bool
  | JInt int
  | JFloat pyfloat
  | JStr pystr
  | JList "json list"
  | JDict "(pystr \<times> json) list"

text \<open>
  The exceptions the code can raise. \<open>ValueError\<close> (or a subclass of it) is what
  \<open>pd.to_datetime\<close> raises for a string that is not a date, and what
  \<open>WordCloud.generate_from_frequencies\<close> raises on an empty table. The last two constructors are
  the failure classes named by the specification; the source defines neither of them and
  no definition below produces them.
\<close>

datatype error =
    IndexError
  | JSONDecodeError
  | KeyError pystr
  | TypeError
  | ValueError
  | MalformedArchiveError
  | EmptyArchiveError

definition bind :: "error + 'a \<Rightarrow> ('a \<Rightarrow> error + 'b) \<Rightarrow> error + 'b" where
  "bind r f = (case r of Inl e \<Rightarrow> Inl e | Inr x \<Rightarrow> f x)"

text \<open>\<open>obj[key]\<close> with a string key: only a dict can be subscripted by a string.\<close>

fun getitem :: "json \<Rightarrow> pystr \<Rightarrow> error + json" where
  "getitem (JDict kvs) k = (case map_of kvs k of None \<Rightarrow> Inl (KeyError k) | Some v \<Rightarrow> Inr v)"
| "getitem _ k = Inl TypeError"

text \<open>
  \<open>key in obj\<close>. In \<open>load_twitter_data\<close> the test is reached only after two successful
  subscripts of the same object, hence only for a dict; the other values are never tested.
\<close>

fun contains :: "json \<Rightarrow> pystr \<Rightarrow> bool" where
  "contains (JDict kvs) k = (map_of kvs k \<noteq> None)"
| "contains _ k = False"

text \<open>\<open>for x in obj\<close>: a list yields its elements, a dict its keys, a string its characters.\<close>

fun iterate :: "json \<Rightarrow> error + json list" where
  "iterate (JList xs) = Inr xs"
| "iterate (JDict kvs) = Inr (map (\<lambda>kv. JStr (fst kv)) kvs)"
| "iterate (JStr s) = Inr (map (\<lambda>c. JStr [c]) s)"
| "iterate _ = Inl TypeError"

section \<open>Unwrapping the archive file\<close>

text \<open>\<open>content.split('=', 1)[1]\<close>: the text after the first \<open>=\<close>; without one, the list
  returned by \<open>split\<close> has a single element and the index raises.\<close>

fun after_first_eq :: "pystr \<Rightarrow> pystr option" where
  "after_first_eq [] = None"
| "after_first_eq (c # cs) = (if c = 61 then Some cs else after_first_eq cs)"

text \<open>The code points for which \<open>str.isspace\<close> holds, which \<open>str.strip()\<close> removes.\<close>

definition isspace :: "nat \<Rightarrow> bool" where
  "isspace c \<longleftrightarrow>
     (9 \<le> c \<and> c \<le> 13) \<or> (28 \<le> c \<and> c \<le> 32) \<or> c = 133 \<or> c = 160 \<or> c = 5760 \<or>
     (8192 \<le> c \<and> c \<le> 8202) \<or> c = 8232 \<or> c = 8233 \<or> c = 8239 \<or> c = 8287 \<or> c = 12288"

definition strip :: "pystr \<Rightarrow> pystr" where
  "strip s = rev (dropWhile isspace (rev (dropWhile isspace s)))"

definition endswith_semicolon :: "pystr \<Rightarrow> bool" where
  "endswith_semicolon s \<longleftrightarrow> s \<noteq> [] \<and> last s = 59"

text \<open>Lines 24 to 28: the text handed to \<open>json.loads\<close>.\<close>

definition json_str :: "pystr \<Rightarrow> pystr option" where
  "json_str content =
     (case after_first_eq content of
        None \<Rightarrow> None
      | Some rest \<Rightarrow>
          (let s = strip rest in Some (if endswith_semicolon s then butlast s else s)))"

section \<open>Extracting the tweets\<close>

text \<open>One row of the table: before \<open>pd.to_datetime\<close> the \<open>created_at\<close> column holds the
  decoded JSON value, afterwards a timestamp.\<close>

record 'a tweet =
  tweet_id :: json
  created_at :: 'a
  full_text :: json

text \<open>The body of the loop, lines 35 to 40. The dict display evaluates its values in
  order, so a missing \<open>id\<close> is reported before a missing \<open>created_at\<close>.\<close>

definition tweet_record :: "json \<Rightarrow> error + json tweet" where
  "tweet_record tw =
     bind (getitem tw (str ''tweet'')) (\<lambda>tweet_data.
     bind (getitem tweet_data (str ''id'')) (\<lambda>i.
     bind (getitem tweet_data (str ''created_at'')) (\<lambda>c.
     bind (if contains tweet_data (str ''full_text'')
           then getitem tweet_data (str ''full_text'')
           else getitem tweet_data (str ''text'')) (\<lambda>t.
     Inr \<lparr>tweet_id = i, created_at = c, full_text = t\<rparr>))))"

text \<open>The loop of lines 33 to 40: the first element that raises ends it.\<close>

fun collect_tweets :: "json list \<Rightarrow> error + json tweet list" where
  "collect_tweets [] = Inr []"
| "collect_tweets (tw # tws) =
     bind (tweet_record tw) (\<lambda>r.
     bind (collect_tweets tws) (\<lambda>rs. Inr (r # rs)))"

section \<open>Timestamps\<close>

record timestamp =
  year :: int
  month :: nat
  day :: nat
  nanos :: nat

text \<open>
  \<open>pd.to_datetime\<close> is called without \<open>errors=\<close>, so the default \<open>errors='raise'\<close>
  applies: the first value that cannot be converted raises and nothing is returned. The
  conversion of one value is a parameter, \<open>coerce\<close>. The missing-value marker that pandas
  produces for a null \<open>created_at\<close> is not represented.
\<close>

fun to_datetime :: "(json \<Rightarrow> error + timestamp) \<Rightarrow> json tweet list \<Rightarrow> error + timestamp tweet list" where
  "to_datetime coerce [] = Inr []"
| "to_datetime coerce (r # rs) =
     bind (coerce (created_at r)) (\<lambda>t.
     bind (to_datetime coerce rs) (\<lambda>ts.
     Inr (\<lparr>tweet_id = tweet_id r, created_at = t, full_text = full_text r\<rparr> # ts)))"

text \<open>
  \<open>load_twitter_data\<close>, lines 19 to 44, on the text of the file. \<open>loads\<close> is
  \<open>json.loads\<close> (\<open>None\<close> when it raises \<open>JSONDecodeError\<close>). A table built from an empty
  list of rows has no columns, so selecting \<open>created_at\<close> raises \<open>KeyError\<close>.
\<close>

definition load_twitter_data ::
  "(pystr \<Rightarrow> json option) \<Rightarrow> (json \<Rightarrow> error + timestamp) \<Rightarrow> pystr \<Rightarrow> error + timestamp tweet list" where
  "load_twitter_data loads coerce content =
     (case json_str content of
        None \<Rightarrow> Inl IndexError
      | Some s \<Rightarrow>
          (case loads s of
             None \<Rightarrow> Inl JSONDecodeError
           | Some data \<Rightarrow>
               bind (iterate data) (\<lambda>elems.
               bind (collect_tweets elems) (\<lambda>tweets.
               if tweets = [] then Inl (KeyError (str ''created_at''))
               else to_datetime coerce tweets))))"

section \<open>Linguistic annotation\<close>

text \<open>What the code reads of a spaCy \<open>Doc\<close>: the labels of its entities and, of each
  token, the lemma and three flags.\<close>

record ent =
  label_str :: pystr

record token =
  lemma_str :: pystr
  is_stop :: bool
  is_punct :: bool
  is_alpha :: bool

record doc =
  ents :: "ent list"
  tokens :: "token list"

text \<open>\<open>list(nlp.pipe(tweets, batch_size=100))\<close>: one document per text, in order; an
  error of the annotator on some text propagates. The annotator \<open>nlp\<close> is a parameter.\<close>

fun pipe :: "('t \<Rightarrow> error + doc) \<Rightarrow> 't list \<Rightarrow> error + doc list" where
  "pipe nlp [] = Inr []"
| "pipe nlp (t # ts) =
     bind (nlp t) (\<lambda>d.
     bind (pipe nlp ts) (\<lambda>ds. Inr (d # ds)))"

text \<open>\<open>collections.Counter\<close> as the items of the dict in insertion order: counting an
  element increments its entry, or appends a new entry with count 1.\<close>

fun counter_add :: "'a \<Rightarrow> ('a \<times> nat) list \<Rightarrow> ('a \<times> nat) list" where
  "counter_add x [] = [(x, 1)]"
| "counter_add x ((k, c) # kcs) =
     (if k = x then (k, Suc c) # kcs else (k, c) # counter_add x kcs)"

definition Counter :: "'a list \<Rightarrow> ('a \<times> nat) list" where
  "Counter xs = foldl (\<lambda>acc x. counter_add x acc) [] xs"

definition content_token :: "token \<Rightarrow> bool" where
  "content_token t \<longleftrightarrow> \<not> is_stop t \<and> \<not> is_punct t \<and> is_alpha t"

definition entity_labels :: "doc list \<Rightarrow> pystr list" where
  "entity_labels docs = concat (map (\<lambda>d. map label_str (ents d)) docs)"

definition content_lemmas :: "doc list \<Rightarrow> pystr list" where
  "content_lemmas docs = concat (map (\<lambda>d. map lemma_str (filter content_token (tokens d))) docs)"

definition analyze_self_expression ::
  "('t \<Rightarrow> error + doc) \<Rightarrow> 't list \<Rightarrow> error + ((pystr \<times> nat) list \<times> (pystr \<times> nat) list)" where
  "analyze_self_expression nlp tweets =
     bind (pipe nlp tweets) (\<lambda>docs.
     Inr (Counter (entity_labels docs), Counter (content_lemmas docs)))"

section \<open>The yearly report\<close>

text \<open>\<open>Counter.most_common(n)\<close>: the \<open>n\<close> first items of a stable sort by decreasing
  count (\<open>heapq.nlargest\<close>, that is \<open>sorted(items, key=count, reverse=True)[:n]\<close>).\<close>

definition most_common :: "nat \<Rightarrow> ('a \<times> nat) list \<Rightarrow> ('a \<times> nat) list" where
  "most_common n c = take n (sort_key (\<lambda>kc. - int (snd kc)) c)"

text \<open>\<open>generate_wordcloud\<close>: \<open>generate_from_frequencies\<close> raises \<open>ValueError\<close> on a table
  without words; otherwise a figure is drawn. The drawing is a parameter, \<open>render\<close>, and
  is taken to succeed on a table with at least one word.\<close>

definition generate_wordcloud :: "((pystr \<times> nat) list \<Rightarrow> 'fig) \<Rightarrow> (pystr \<times> nat) list \<Rightarrow> error + 'fig" where
  "generate_wordcloud render lemmas_count =
     (if lemmas_count = [] then Inl ValueError else Inr (render lemmas_count))"

text \<open>
  \<open>df_year.resample('M', on='created_at').size()\<close>: one bin per calendar month, from the
  month of the earliest timestamp of the frame to the month of the latest, each with the
  number of rows whose timestamp lies in it (0 for a month without rows). A bin is labelled
  here by its year and month; an empty frame gives an empty series.
\<close>

definition month_ordinal :: "timestamp \<Rightarrow> int" where
  "month_ordinal t = year t * 12 + int (month t) - 1"

definition resample_M_size :: "timestamp tweet list \<Rightarrow> ((int \<times> nat) \<times> nat) list" where
  "resample_M_size df =
     (case map (\<lambda>r. month_ordinal (created_at r)) df of
        [] \<Rightarrow> []
      | k # ks \<Rightarrow>
          (let lo = fold min ks k; hi = fold max ks k
           in map (\<lambda>m. ((m div 12, nat (m mod 12) + 1), count_list (k # ks) m)) [lo..hi]))"

definition analyze_year ::
  "((pystr \<times> nat) list \<Rightarrow> 'fig) \<Rightarrow> (json \<Rightarrow> error + doc) \<Rightarrow> timestamp tweet list \<Rightarrow>
     error + (((int \<times> nat) \<times> nat) list \<times> (pystr \<times> nat) list \<times> 'fig)" where
  "analyze_year render nlp df_year =
     (let tweet_counts = resample_M_size df_year in
      bind (analyze_self_expression nlp (map full_text df_year)) (\<lambda>(entities_count, lemmas_count).
      let top_entities = most_common 10 entities_count in
      bind (generate_wordcloud render lemmas_count) (\<lambda>wordcloud_fig.
      Inr (tweet_counts, top_entities, wordcloud_fig))))"

text \<open>Lines 84, 85 and 89 of \<open>main\<close>: the years present, ascending, and the rows of one year.\<close>

definition years :: "timestamp tweet list \<Rightarrow> int list" where
  "years df = sort (remdups (map (\<lambda>r. year (created_at r)) df))"

definition year_frame :: "timestamp tweet list \<Rightarrow> int \<Rightarrow> timestamp tweet list" where
  "year_frame df y = filter (\<lambda>r. year (created_at r) = y) df"



text \<open>An element of the archive's array in the expected shape: a dict whose \<open>tweet\<close>
  entry is a dict with an \<open>id\<close>, a \<open>created_at\<close> and a \<open>full_text\<close> or a \<open>text\<close>.\<close>

definition well_formed_post :: "json \<Rightarrow> bool" where
  "well_formed_post e \<longleftrightarrow>
     (case getitem e (str ''tweet'') of
        Inr (JDict kvs) \<Rightarrow>
          contains (JDict kvs) (str ''id'') \<and> contains (JDict kvs) (str ''created_at'') \<and>
          (contains (JDict kvs) (str ''full_text'') \<or> contains (JDict kvs) (str ''text''))
      | _ \<Rightarrow> False)"

section \<open>Sample archives\<close>

text \<open>Small archives on which the functions are run below, with the values of
  \<open>json.loads\<close>, \<open>pd.to_datetime\<close> and the annotator on the texts that occur in them.\<close>

definition post :: "string \<Rightarrow> string \<Rightarrow> string \<Rightarrow> json" where
  "post i c t =
     JDict [(str ''tweet'',
       JDict [(str ''id'', JStr (str i)), (str ''created_at'', JStr (str c)),
              (str ''full_text'', JStr (str t))])]"

definition body_both :: pystr where
  \<open>body_both = str ''[{"tweet": {"id": "1", "created_at": "2020-03-05", '' @
     str ''"full_text": "I love Paris", "text": "I love"}}, '' @
     str ''{"tweet": {"id": "2", "created_at": "2020-06-01", "text": "Anna loves Paris."}}]''\<close>

definition data_both :: json where
  "data_both = JList
     [JDict [(str ''tweet'',
        JDict [(str ''id'', JStr (str ''1'')), (str ''created_at'', JStr (str ''2020-03-05'')),
               (str ''full_text'', JStr (str ''I love Paris'')), (str ''text'', JStr (str ''I love''))])],
      JDict [(str ''tweet'',
        JDict [(str ''id'', JStr (str ''2'')), (str ''created_at'', JStr (str ''2020-06-01'')),
               (str ''text'', JStr (str ''Anna loves Paris.''))])]]"

definition body_three :: pystr where
  \<open>body_three = str ''[{"tweet": {"id": "1", "created_at": "2020-03-05", "full_text": "I love Paris"}}, '' @
     str ''{"tweet": {"id": "2", "created_at": "soon", "full_text": "it is"}}, '' @
     str ''{"tweet": {"id": "3", "created_at": "2020-06-01", "full_text": "Anna loves Paris."}}]''\<close>

definition data_three :: json where
  "data_three = JList
     [post ''1'' ''2020-03-05'' ''I love Paris'', post ''2'' ''soon'' ''it is'',
      post ''3'' ''2020-06-01'' ''Anna loves Paris.'']"

definition body_undated :: pystr where
  \<open>body_undated = str ''[{"tweet": {"id": "2", "created_at": "soon", "full_text": "it is"}}]''\<close>

definition data_undated :: json where
  "data_undated = JList [post ''2'' ''soon'' ''it is'']"

definition body_twice :: pystr where
  \<open>body_twice = str ''[{"tweet": {"id": "7", "created_at": "2020-03-05", "full_text": "I love Paris"}}, '' @
     str ''{"tweet": {"id": "7", "created_at": "2020-06-01", "full_text": "it is"}}]''\<close>

definition data_twice :: json where
  "data_twice = JList [post ''7'' ''2020-03-05'' ''I love Paris'', post ''7'' ''2020-06-01'' ''it is'']"

definition archive :: "pystr \<Rightarrow> pystr" where
  "archive body = str ''window.YTD.tweets.part0 = '' @ body @ str '';''"

definition sample_loads :: "pystr \<Rightarrow> json option" where
  "sample_loads s =
     (if s = body_both then Some data_both
      else if s = body_three then Some data_three
      else if s = body_undated then Some data_undated
      else if s = body_twice then Some data_twice
      else if s = str ''[]'' then Some (JList [])
      else None)"

definition sample_coerce :: "json \<Rightarrow> error + timestamp" where
  "sample_coerce v =
     (if v = JStr (str ''2020-03-05'') then Inr \<lparr>year = 2020, month = 3, day = 5, nanos = 0\<rparr>
      else if v = JStr (str ''2020-06-01'') then Inr \<lparr>year = 2020, month = 6, day = 1, nanos = 0\<rparr>
      else Inl ValueError)"

definition tok :: "string \<Rightarrow> bool \<Rightarrow> bool \<Rightarrow> bool \<Rightarrow> token" where
  "tok l s p a = \<lparr>lemma_str = str l, is_stop = s, is_punct = p, is_alpha = a\<rparr>"

definition sample_nlp :: "json \<Rightarrow> error + doc" where
  "sample_nlp t =
     (if t = JStr (str ''I love Paris'') then
        Inr \<lparr>ents = [\<lparr>label_str = str ''GPE''\<rparr>],
             tokens = [tok ''I'' True False True, tok ''love'' False False True,
                       tok ''Paris'' False False True]\<rparr>
      else if t = JStr (str ''Anna loves Paris.'') then
        Inr \<lparr>ents = [\<lparr>label_str = str ''PERSON''\<rparr>, \<lparr>label_str = str ''GPE''\<rparr>],
             tokens = [tok ''Anna'' False False True, tok ''love'' False False True,
                       tok ''Paris'' False False True, tok ''.'' False True False]\<rparr>
      else if t = JStr (str ''it is'') then
        Inr \<lparr>ents = [], tokens = [tok ''it'' True False True, tok ''be'' True False True]\<rparr>
      else Inl ValueError)"

definition row :: "string \<Rightarrow> int \<Rightarrow> nat \<Rightarrow> nat \<Rightarrow> string \<Rightarrow> timestamp tweet" where
  "row i y m d t =
     \<lparr>tweet_id = JStr (str i), created_at = \<lparr>year = y, month = m, day = d, nanos = 0\<rparr>,
      full_text = JStr (str t)\<rparr>"

definition sample_frame :: "timestamp tweet list" where
  "sample_frame =
     [row ''1'' 2020 3 5 ''I love Paris'', row ''2'' 2020 6 1 ''Anna loves Paris.'',
      row ''3'' 2021 1 15 ''it is'']"

section \<open>Properties\<close>

subsection \<open>Results and counters\<close>


lemma bind_Inr_iff: "bind r f = Inr y \<longleftrightarrow> (\<exists>x. r = Inr x \<and> f x = Inr y)"
  by (cases r) (simp_all add: bind_def)

lemma bind_Inl_iff: "bind r f = Inl e \<longleftrightarrow> r = Inl e \<or> (\<exists>x. r = Inr x \<and> f x = Inl e)"
  by (cases r) (simp_all add: bind_def)

lemma bind_Inr [simp]: "bind (Inr x) f = f x"
  by (simp add: bind_def)

lemma bind_Inl [simp]: "bind (Inl e) f = Inl e"
  by (simp add: bind_def)

lemma pipe_Inr_iff: "pipe nlp ts = Inr ds \<longleftrightarrow> map nlp ts = map Inr ds"
proof (induction ts arbitrary: ds)
  case Nil
  then show ?case by auto
next
  case (Cons t ts)
  show ?case
  proof (cases ds)
    case Nil
    then show ?thesis by (auto simp: bind_Inr_iff)
  next
    case (Cons d ds')
    with Cons.IH [of ds'] show ?thesis by (auto simp: bind_Inr_iff)
  qed
qed

lemma keys_counter_add:
  "map fst (counter_add x kcs) = (if x \<in> fst ` set kcs then map fst kcs else map fst kcs @ [x])"
  by (induction kcs) (force+)

lemma map_of_counter_add:
  "map_of (counter_add x kcs) =
     (map_of kcs)(x \<mapsto> (case map_of kcs x of None \<Rightarrow> 1 | Some c \<Rightarrow> Suc c))"
  by (induction kcs) (auto simp: fun_eq_iff)

lemma Counter_Nil [simp]: "Counter [] = []"
  by (simp add: Counter_def)

lemma Counter_snoc: "Counter (xs @ [x]) = counter_add x (Counter xs)"
  by (simp add: Counter_def)

lemma set_keys_Counter: "fst ` set (Counter xs) = set xs"
proof (induction xs rule: rev_induct)
  case Nil
  then show ?case by simp
next
  case (snoc x xs)
  have "set (map fst (Counter (xs @ [x]))) = set (xs @ [x])"
    unfolding Counter_snoc keys_counter_add using snoc.IH by auto
  then show ?case by simp
qed

lemma distinct_keys_Counter: "distinct (map fst (Counter xs))"
proof (induction xs rule: rev_induct)
  case Nil
  then show ?case by simp
next
  case (snoc x xs)
  then show ?case
    unfolding Counter_snoc keys_counter_add by (auto simp: set_keys_Counter)
qed

lemma map_of_Counter:
  "map_of (Counter xs) k = (if k \<in> set xs then Some (count_list xs k) else None)"
proof (induction xs rule: rev_induct)
  case Nil
  then show ?case by simp
next
  case (snoc x xs)
  then show ?case
    unfolding Counter_snoc map_of_counter_add by (auto simp: count_list_append)
qed

lemma Counter_entry_iff:
  "(k, c) \<in> set (Counter xs) \<longleftrightarrow> k \<in> set xs \<and> c = count_list xs k"
proof -
  have "(k, c) \<in> set (Counter xs) \<longleftrightarrow> map_of (Counter xs) k = Some c"
    using distinct_keys_Counter [of xs] by simp
  then show ?thesis by (auto simp: map_of_Counter)
qed

lemma length_Counter: "length (Counter xs) = card (set xs)"
proof -
  have "length (Counter xs) = length (map fst (Counter xs))" by simp
  also have "\<dots> = card (set (map fst (Counter xs)))"
    using distinct_keys_Counter [of xs] by (simp only: distinct_card)
  also have "\<dots> = card (set xs)" by (simp add: set_keys_Counter)
  finally show ?thesis .
qed

lemma Counter_eq_Nil_iff: "Counter xs = [] \<longleftrightarrow> xs = []"
  using length_Counter [of xs] by (metis List.finite_set card_0_eq length_0_conv set_empty)





subsection \<open>Loading an archive\<close>







lemma load_decoded:
  "json_str content = Some s \<Longrightarrow> loads s = Some data \<Longrightarrow> iterate data = Inr elems \<Longrightarrow>
   collect_tweets elems = Inr tweets \<Longrightarrow>
     load_twitter_data loads coerce content =
       (if tweets = [] then Inl (KeyError (str ''created_at'')) else to_datetime coerce tweets)"
  by (simp add: load_twitter_data_def)




lemma collect_tweets_length: "collect_tweets elems = Inr tweets \<Longrightarrow> length tweets = length elems"
proof (induction elems arbitrary: tweets)
  case Nil
  then show ?case by simp
next
  case (Cons e elems)
  then show ?case by (auto simp: bind_Inr_iff)
qed

lemma collect_tweets_nth:
  "collect_tweets elems = Inr tweets \<Longrightarrow> i < length elems \<Longrightarrow>
     tweet_record (elems ! i) = Inr (tweets ! i)"
proof (induction elems arbitrary: tweets i)
  case Nil
  then show ?case by simp
next
  case (Cons e elems)
  then show ?case by (cases i) (auto simp: bind_Inr_iff)
qed

lemma collect_tweets_total:
  "(\<forall>e \<in> set elems. \<exists>r. tweet_record e = Inr r) \<Longrightarrow> \<exists>tweets. collect_tweets elems = Inr tweets"
proof (induction elems)
  case Nil
  then show ?case by simp
next
  case (Cons e elems)
  then obtain r rs where "tweet_record e = Inr r" "collect_tweets elems = Inr rs" by auto
  then show ?case by simp
qed

lemma tweet_record_well_formed:
  assumes "well_formed_post e"
  shows "\<exists>kvs i c t. getitem e (str ''tweet'') = Inr (JDict kvs) \<and>
           map_of kvs (str ''id'') = Some i \<and> map_of kvs (str ''created_at'') = Some c \<and>
           (case map_of kvs (str ''full_text'') of
              Some v \<Rightarrow> t = v
            | None \<Rightarrow> map_of kvs (str ''text'') = Some t) \<and>
           tweet_record e = Inr \<lparr>tweet_id = i, created_at = c, full_text = t\<rparr>"
proof -
  from assms obtain kvs where kvs: "getitem e (str ''tweet'') = Inr (JDict kvs)"
    and i: "map_of kvs (str ''id'') \<noteq> None" and c: "map_of kvs (str ''created_at'') \<noteq> None"
    and t: "map_of kvs (str ''full_text'') \<noteq> None \<or> map_of kvs (str ''text'') \<noteq> None"
    by (auto simp: well_formed_post_def split: sum.splits json.splits)
  from i obtain iv where iv: "map_of kvs (str ''id'') = Some iv" by blast
  from c obtain cv where cv: "map_of kvs (str ''created_at'') = Some cv" by blast
  show ?thesis
  proof (cases "map_of kvs (str ''full_text'')")
    case None
    with t obtain tv where tv: "map_of kvs (str ''text'') = Some tv" by blast
    have "tweet_record e = Inr \<lparr>tweet_id = iv, created_at = cv, full_text = tv\<rparr>"
      by (simp add: tweet_record_def kvs iv cv None tv)
    with kvs iv cv None tv show ?thesis by simp
  next
    case (Some fv)
    have "tweet_record e = Inr \<lparr>tweet_id = iv, created_at = cv, full_text = fv\<rparr>"
      by (simp add: tweet_record_def kvs iv cv Some)
    with kvs iv cv Some show ?thesis by simp
  qed
qed

subsection \<open>The sample archives, loaded\<close>

lemma strip_framed:
  assumes "body \<noteq> []" and "\<not> isspace (hd body)"
  shows "strip (32 # body @ [59]) = body @ [59]"
proof -
  from assms obtain b bs where body: "body = b # bs" and b: "\<not> isspace b"
    by (cases body) auto
  have "isspace 32" and "\<not> isspace 59" by (simp_all add: isspace_def)
  then show ?thesis using b by (simp add: strip_def body)
qed

lemma json_str_archive:
  assumes "body \<noteq> []" and "\<not> isspace (hd body)"
  shows "json_str (archive body) = Some body"
proof -
  have "after_first_eq (archive body) = Some (32 # body @ [59])"
    by (simp add: archive_def str_def)
  then show ?thesis
    using strip_framed [OF assms] by (simp add: json_str_def endswith_semicolon_def)
qed

lemma json_str_both: "json_str (archive body_both) = Some body_both"
  by (rule json_str_archive) (simp_all add: body_both_def str_def isspace_def)




lemma json_str_empty_array: "json_str (archive (str ''[]'')) = Some (str ''[]'')"
  by (rule json_str_archive) (simp_all add: str_def isspace_def)


lemma loads_both: "sample_loads body_both = Some data_both"
  by (simp add: sample_loads_def)




lemma loads_empty_array: "sample_loads (str ''[]'') = Some (JList [])"
  by (simp add: sample_loads_def body_twice_def body_undated_def body_three_def body_both_def str_def)










lemma load_empty_array:
  "load_twitter_data sample_loads sample_coerce (archive (str ''[]'')) = Inl (KeyError (str ''created_at''))"
  by (simp add: load_twitter_data_def json_str_empty_array loads_empty_array)




subsection \<open>Stable ranking\<close>









lemma analyze_self_expression_Inr_iff:
  "analyze_self_expression nlp texts = Inr (ec, lc) \<longleftrightarrow>
     (\<exists>docs. map nlp texts = map Inr docs \<and> ec = Counter (entity_labels docs) \<and>
        lc = Counter (content_lemmas docs))"
  by (auto simp: analyze_self_expression_def bind_Inr_iff pipe_Inr_iff)

lemma analyze_year_Inr_iff:
  "analyze_year render nlp df_year = Inr (tc, te, fig) \<longleftrightarrow>
     (\<exists>docs. map nlp (map full_text df_year) = map Inr docs \<and>
        tc = resample_M_size df_year \<and>
        te = most_common 10 (Counter (entity_labels docs)) \<and>
        Counter (content_lemmas docs) \<noteq> [] \<and>
        fig = render (Counter (content_lemmas docs)))"
proof -
  have "analyze_year render nlp df_year = Inr (tc, te, fig) \<longleftrightarrow>
     (\<exists>ec lc. analyze_self_expression nlp (map full_text df_year) = Inr (ec, lc) \<and>
        tc = resample_M_size df_year \<and> te = most_common 10 ec \<and> lc \<noteq> [] \<and> fig = render lc)"
    by (auto simp: analyze_year_def bind_Inr_iff generate_wordcloud_def Let_def)
  then show ?thesis
    unfolding analyze_self_expression_Inr_iff by blast
qed


subsection \<open>Monthly bins\<close>

lemma count_list_map_filter: "count_list (map f xs) v = length (filter (\<lambda>x. f x = v) xs)"
  by (induction xs) auto

lemma upto_shift_upt: "[c + int a..c + int b] = map (\<lambda>n. c + int n) [a..<Suc b]"
proof (induction b)
  case 0
  show ?case
  proof (cases "a = 0")
    case True
    then show ?thesis by simp
  next
    case False
    then show ?thesis by simp
  qed
next
  case (Suc b)
  show ?case
  proof (cases "a \<le> Suc b")
    case True
    then have "[c + int a..c + int (Suc b)] = [c + int a..c + int (Suc b) - 1] @ [c + int (Suc b)]"
      by (intro upto_rec2) simp
    also have "c + int (Suc b) - 1 = c + int b" by simp
    finally show ?thesis using Suc True by simp
  next
    case False
    then show ?thesis by simp
  qed
qed

lemma fold_min_Min: "fold min ks (k::int) = Min (set (k # ks))"
  by (rule Min.set_eq_fold [symmetric])

lemma fold_max_Max: "fold max ks (k::int) = Max (set (k # ks))"
  by (rule Max.set_eq_fold [symmetric])

lemma resample_M_size_one_year:
  assumes ne: "df \<noteq> []"
    and valid: "\<forall>r \<in> set df. year (created_at r) = y \<and> 1 \<le> month (created_at r) \<and> month (created_at r) \<le> 12"
  shows "resample_M_size df =
           map (\<lambda>m. ((y, m), length (filter (\<lambda>r. month (created_at r) = m) df)))
             [Min ((\<lambda>r. month (created_at r)) ` set df) ..< Suc (Max ((\<lambda>r. month (created_at r)) ` set df))]"
proof -
  let ?mo = "\<lambda>r. month (created_at r)"
  let ?g = "\<lambda>m. (y * 12 - 1) + int m"
  let ?ks = "map (\<lambda>r. month_ordinal (created_at r)) df"
  let ?M = "?mo ` set df"
  have ord: "month_ordinal (created_at r) = ?g (?mo r)" if "r \<in> set df" for r
    using valid that by (simp add: month_ordinal_def)
  have ks: "?ks = map ?g (map ?mo df)"
    using ord by simp
  have fin: "finite ?M" "?M \<noteq> {}" using ne by simp_all
  have mono: "mono ?g" by (rule monoI) simp
  have set_ks: "set ?ks = ?g ` ?M" unfolding ks by (simp add: image_image)
  obtain k ks' where split: "?ks = k # ks'" using ne by (cases df) auto
  have lo: "fold min ks' k = ?g (Min ?M)"
    unfolding fold_min_Min split [symmetric] set_ks
    by (rule mono_Min_commute [OF mono fin, symmetric])
  have hi: "fold max ks' k = ?g (Max ?M)"
    unfolding fold_max_Max split [symmetric] set_ks
    by (rule mono_Max_commute [OF mono fin, symmetric])
  have range: "1 \<le> m \<and> m \<le> 12" if "m \<in> set [Min ?M..<Suc (Max ?M)]" for m
  proof -
    have "Min ?M \<in> ?M" "Max ?M \<in> ?M" using fin by (auto intro: Min_in Max_in)
    then have "1 \<le> Min ?M" "Max ?M \<le> 12" using valid by auto
    with that show ?thesis by auto
  qed
  have entry: "((?g m div 12, nat (?g m mod 12) + 1), count_list ?ks (?g m)) =
                 ((y, m), length (filter (\<lambda>r. ?mo r = m) df))"
    if "m \<in> set [Min ?M..<Suc (Max ?M)]" for m
  proof -
    from range [OF that] have m: "1 \<le> m" "m \<le> 12" by simp_all
    have g: "?g m = y * 12 + (int m - 1)" by simp
    have d: "?g m div 12 = y" unfolding g using m by (simp add: div_pos_pos_trivial)
    have r: "?g m mod 12 = int m - 1" unfolding g using m by (simp add: mod_pos_pos_trivial)
    have "filter (\<lambda>r. month_ordinal (created_at r) = ?g m) df = filter (\<lambda>r. ?mo r = m) df"
      by (rule filter_cong) (auto simp: ord)
    then have c: "count_list ?ks (?g m) = length (filter (\<lambda>r. ?mo r = m) df)"
      by (simp add: count_list_map_filter)
    from d r c m show ?thesis by simp
  qed
  have "resample_M_size df =
          map (\<lambda>i. ((i div 12, nat (i mod 12) + 1), count_list (k # ks') i)) [fold min ks' k..fold max ks' k]"
    by (simp add: resample_M_size_def split Let_def)
  also have "\<dots> =
          map (\<lambda>k. ((k div 12, nat (k mod 12) + 1), count_list ?ks k)) [?g (Min ?M)..?g (Max ?M)]"
    by (simp only: lo hi split)
  also have "[?g (Min ?M)..?g (Max ?M)] = map ?g [Min ?M..<Suc (Max ?M)]"
    by (rule upto_shift_upt)
  also have "map (\<lambda>k. ((k div 12, nat (k mod 12) + 1), count_list ?ks k)) (map ?g [Min ?M..<Suc (Max ?M)]) =
      map (\<lambda>m. ((y, m), length (filter (\<lambda>r. ?mo r = m) df))) [Min ?M..<Suc (Max ?M)]"
    unfolding map_map comp_def by (rule map_cong [OF refl]) (rule entry)
  finally show ?thesis .
qed

subsection \<open>Failures of the unwrapping\<close>




subsection \<open>Records whose timestamp cannot be coerced\<close>




subsection \<open>Archives without a valid record\<close>




subsection \<open>The fields taken from each post\<close>

lemma collect_both:
  "collect_tweets
     [JDict [(str ''tweet'',
        JDict [(str ''id'', JStr (str ''1'')), (str ''created_at'', JStr (str ''2020-03-05'')),
               (str ''full_text'', JStr (str ''I love Paris'')), (str ''text'', JStr (str ''I love''))])],
      JDict [(str ''tweet'',
        JDict [(str ''id'', JStr (str ''2'')), (str ''created_at'', JStr (str ''2020-06-01'')),
               (str ''text'', JStr (str ''Anna loves Paris.''))])]] =
   Inr [\<lparr>tweet_id = JStr (str ''1''), created_at = JStr (str ''2020-03-05''),
           full_text = JStr (str ''I love Paris'')\<rparr>,
        \<lparr>tweet_id = JStr (str ''2''), created_at = JStr (str ''2020-06-01''),
           full_text = JStr (str ''Anna loves Paris.'')\<rparr>]"
  by (simp add: tweet_record_def str_def)

lemma well_formed_both:
  "\<forall>e \<in> set
     [JDict [(str ''tweet'',
        JDict [(str ''id'', JStr (str ''1'')), (str ''created_at'', JStr (str ''2020-03-05'')),
               (str ''full_text'', JStr (str ''I love Paris'')), (str ''text'', JStr (str ''I love''))])],
      JDict [(str ''tweet'',
        JDict [(str ''id'', JStr (str ''2'')), (str ''created_at'', JStr (str ''2020-06-01'')),
               (str ''text'', JStr (str ''Anna loves Paris.''))])]]. well_formed_post e"
  by (simp add: well_formed_post_def str_def)

text \<open>
  C7. For every payload whose remainder decodes to an array of well-formed posts, the loop
  of \<open>load_twitter_data\<close> yields one record per array element, in order, made of exactly
  three fields taken from the element's \<open>tweet\<close> object: its \<open>id\<close>, its \<open>created_at\<close>,
  and as text its \<open>full_text\<close> whenever that key is present, its \<open>text\<close> only when
  \<open>full_text\<close> is absent. These records are what \<open>load_twitter_data\<close> hands to
  \<open>pd.to_datetime\<close>.
\<close>

theorem parser_extracts_three_fields:
  assumes "json_str content = Some s" and "loads s = Some (JList elems)"
    and "\<forall>e \<in> set elems. well_formed_post e"
  shows "\<exists>tweets. collect_tweets elems = Inr tweets \<and> length tweets = length elems \<and>
           (\<forall>i < length elems. \<exists>kvs.
              getitem (elems ! i) (str ''tweet'') = Inr (JDict kvs) \<and>
              map_of kvs (str ''id'') = Some (tweet_id (tweets ! i)) \<and>
              map_of kvs (str ''created_at'') = Some (created_at (tweets ! i)) \<and>
              (case map_of kvs (str ''full_text'') of
                 Some v \<Rightarrow> full_text (tweets ! i) = v
               | None \<Rightarrow> map_of kvs (str ''text'') = Some (full_text (tweets ! i)))) \<and>
           load_twitter_data loads coerce content =
             (if elems = [] then Inl (KeyError (str ''created_at'')) else to_datetime coerce tweets)"
proof -
  have "\<forall>e \<in> set elems. \<exists>r. tweet_record e = Inr r"
    using assms(3) tweet_record_well_formed by blast
  then obtain tweets where tweets: "collect_tweets elems = Inr tweets"
    using collect_tweets_total by blast
  then have len: "length tweets = length elems" by (rule collect_tweets_length)
  have fields: "\<exists>kvs. getitem (elems ! i) (str ''tweet'') = Inr (JDict kvs) \<and>
              map_of kvs (str ''id'') = Some (tweet_id (tweets ! i)) \<and>
              map_of kvs (str ''created_at'') = Some (created_at (tweets ! i)) \<and>
              (case map_of kvs (str ''full_text'') of
                 Some v \<Rightarrow> full_text (tweets ! i) = v
               | None \<Rightarrow> map_of kvs (str ''text'') = Some (full_text (tweets ! i)))"
    if "i < length elems" for i
  proof -
    from that assms(3) have "well_formed_post (elems ! i)" by simp
    from tweet_record_well_formed [OF this] obtain kvs iv cv tv
      where kvs: "getitem (elems ! i) (str ''tweet'') = Inr (JDict kvs)"
        and f: "map_of kvs (str ''id'') = Some iv" "map_of kvs (str ''created_at'') = Some cv"
          "case map_of kvs (str ''full_text'') of Some v \<Rightarrow> tv = v
           | None \<Rightarrow> map_of kvs (str ''text'') = Some tv"
        and rec: "tweet_record (elems ! i) = Inr \<lparr>tweet_id = iv, created_at = cv, full_text = tv\<rparr>"
      by blast
    from collect_tweets_nth [OF tweets that] rec
    have "tweets ! i = \<lparr>tweet_id = iv, created_at = cv, full_text = tv\<rparr>" by simp
    with kvs f show ?thesis
      by (intro exI [of _ kvs]) (auto split: option.splits)
  qed
  have "iterate (JList elems) = Inr elems" by simp
  from load_decoded [where loads = loads and coerce = coerce, OF assms(1,2) this tweets]
  have "load_twitter_data loads coerce content =
      (if elems = [] then Inl (KeyError (str ''created_at'')) else to_datetime coerce tweets)"
    using len by auto
  with tweets len fields show ?thesis by blast
qed

theorem parser_extracts_three_fields_witness:
  "json_str (archive body_both) = Some body_both \<and>
   sample_loads body_both = Some data_both \<and>
   list_all well_formed_post
     [JDict [(str ''tweet'',
        JDict [(str ''id'', JStr (str ''1'')), (str ''created_at'', JStr (str ''2020-03-05'')),
               (str ''full_text'', JStr (str ''I love Paris'')), (str ''text'', JStr (str ''I love''))])],
      JDict [(str ''tweet'',
        JDict [(str ''id'', JStr (str ''2'')), (str ''created_at'', JStr (str ''2020-06-01'')),
               (str ''text'', JStr (str ''Anna loves Paris.''))])]] \<and>
   collect_tweets
     [JDict [(str ''tweet'',
        JDict [(str ''id'', JStr (str ''1'')), (str ''created_at'', JStr (str ''2020-03-05'')),
               (str ''full_text'', JStr (str ''I love Paris'')), (str ''text'', JStr (str ''I love''))])],
      JDict [(str ''tweet'',
        JDict [(str ''id'', JStr (str ''2'')), (str ''created_at'', JStr (str ''2020-06-01'')),
               (str ''text'', JStr (str ''Anna loves Paris.''))])]] =
     Inr [\<lparr>tweet_id = JStr (str ''1''), created_at = JStr (str ''2020-03-05''),
             full_text = JStr (str ''I love Paris'')\<rparr>,
          \<lparr>tweet_id = JStr (str ''2''), created_at = JStr (str ''2020-06-01''),
             full_text = JStr (str ''Anna loves Paris.'')\<rparr>] \<and>
   load_twitter_data sample_loads sample_coerce (archive body_both) =
     to_datetime sample_coerce
       [\<lparr>tweet_id = JStr (str ''1''), created_at = JStr (str ''2020-03-05''),
           full_text = JStr (str ''I love Paris'')\<rparr>,
        \<lparr>tweet_id = JStr (str ''2''), created_at = JStr (str ''2020-06-01''),
           full_text = JStr (str ''Anna loves Paris.'')\<rparr>]"
proof -
  have wf: "list_all well_formed_post
     [JDict [(str ''tweet'',
        JDict [(str ''id'', JStr (str ''1'')), (str ''created_at'', JStr (str ''2020-03-05'')),
               (str ''full_text'', JStr (str ''I love Paris'')), (str ''text'', JStr (str ''I love''))])],
      JDict [(str ''tweet'',
        JDict [(str ''id'', JStr (str ''2'')), (str ''created_at'', JStr (str ''2020-06-01'')),
               (str ''text'', JStr (str ''Anna loves Paris.''))])]]"
    using well_formed_both by (simp only: list_all_iff)
  have ld: "sample_loads body_both = Some (JList
     [JDict [(str ''tweet'',
        JDict [(str ''id'', JStr (str ''1'')), (str ''created_at'', JStr (str ''2020-03-05'')),
               (str ''full_text'', JStr (str ''I love Paris'')), (str ''text'', JStr (str ''I love''))])],
      JDict [(str ''tweet'',
        JDict [(str ''id'', JStr (str ''2'')), (str ''created_at'', JStr (str ''2020-06-01'')),
               (str ''text'', JStr (str ''Anna loves Paris.''))])]])"
    using loads_both by (simp only: data_both_def)
  from parser_extracts_three_fields [where loads = sample_loads and coerce = sample_coerce,
      OF json_str_both ld well_formed_both]
  have l: "load_twitter_data sample_loads sample_coerce (archive body_both) =
     to_datetime sample_coerce
       [\<lparr>tweet_id = JStr (str ''1''), created_at = JStr (str ''2020-03-05''),
           full_text = JStr (str ''I love Paris'')\<rparr>,
        \<lparr>tweet_id = JStr (str ''2''), created_at = JStr (str ''2020-06-01''),
           full_text = JStr (str ''Anna loves Paris.'')\<rparr>]"
    unfolding collect_both by auto
  show ?thesis
    by (rule conjI [OF json_str_both conjI [OF loads_both conjI [OF wf conjI [OF collect_both l]]]])
qed

subsection \<open>Records with the same id\<close>




subsection \<open>The monthly series of a year\<close>

lemma year_frame_nonempty: "y \<in> set (years df) \<Longrightarrow> year_frame df y \<noteq> []"
  by (auto simp: years_def year_frame_def filter_empty_conv)

lemma sample_year_2020:
  "analyze_year id sample_nlp (year_frame sample_frame 2020) =
     Inr ([((2020, 3), 1), ((2020, 4), 0), ((2020, 5), 0), ((2020, 6), 1)],
          [(str ''GPE'', 2), (str ''PERSON'', 1)],
          [(str ''love'', 2), (str ''Paris'', 2), (str ''Anna'', 1)])"
  by code_simp

lemma sample_years: "years sample_frame = [2020, 2021]"
  by code_simp

lemma sample_months_valid:
  "\<forall>r \<in> set sample_frame. 1 \<le> month (created_at r) \<and> month (created_at r) \<le> 12"
  by (simp add: sample_frame_def row_def)

text \<open>
  C1, as stated, fails. The claim asks for exactly twelve entries, January to December,
  for every year with a record. In the sample frame the year 2020 has one record in March
  and one in June: \<open>analyze_year\<close> returns a series of four entries, March to June.
\<close>

theorem monthly_counts_not_twelve:
  "analyze_year id sample_nlp (year_frame sample_frame 2020) =
     Inr ([((2020, 3), 1), ((2020, 4), 0), ((2020, 5), 0), ((2020, 6), 1)],
          [(str ''GPE'', 2), (str ''PERSON'', 1)],
          [(str ''love'', 2), (str ''Paris'', 2), (str ''Anna'', 1)]) \<and>
   length [((2020::int, 3::nat), 1::nat), ((2020, 4), 0), ((2020, 5), 0), ((2020, 6), 1)] \<noteq> 12"
  using sample_year_2020 by simp

text \<open>
  C1, amended. For every year with at least one record, the series returned by
  \<open>analyze_year\<close> has one entry per calendar month from the month of the year's earliest
  record to the month of its latest record, in order: between one and twelve entries, all
  of that year. Each entry carries the number of records of that month, so a month inside
  that span without records appears with count 0; months before the first or after the
  last month with a record are not in the series.
\<close>

theorem monthly_counts_first_to_last_month:
  assumes "y \<in> set (years df)"
    and "\<forall>r \<in> set df. 1 \<le> month (created_at r) \<and> month (created_at r) \<le> 12"
    and "analyze_year render nlp (year_frame df y) = Inr (tweet_counts, top_entities, fig)"
  shows "\<exists>first last.
           first = Min ((\<lambda>r. month (created_at r)) ` set (year_frame df y)) \<and>
           last = Max ((\<lambda>r. month (created_at r)) ` set (year_frame df y)) \<and>
           1 \<le> first \<and> first \<le> last \<and> last \<le> 12 \<and>
           length tweet_counts = last - first + 1 \<and>
           tweet_counts =
             map (\<lambda>m. ((y, m),
                    length (filter (\<lambda>r. year (created_at r) = y \<and> month (created_at r) = m) df)))
               [first..<Suc last]"
proof -
  let ?fr = "year_frame df y"
  let ?M = "(\<lambda>r. month (created_at r)) ` set ?fr"
  have ne: "?fr \<noteq> []" using assms(1) by (rule year_frame_nonempty)
  have valid: "\<forall>r \<in> set ?fr. year (created_at r) = y \<and> 1 \<le> month (created_at r) \<and> month (created_at r) \<le> 12"
    using assms(2) by (simp add: year_frame_def)
  have fin: "finite ?M" "?M \<noteq> {}" using ne by simp_all
  then have mem: "Min ?M \<in> ?M" "Max ?M \<in> ?M" by (auto intro: Min_in Max_in)
  then have bounds: "1 \<le> Min ?M" "Max ?M \<le> 12" using valid by auto
  have le: "Min ?M \<le> Max ?M" using fin(1) mem(2) by (rule Min_le)
  have "tweet_counts = resample_M_size ?fr"
    using assms(3) unfolding analyze_year_Inr_iff by blast
  also have "\<dots> = map (\<lambda>m. ((y, m), length (filter (\<lambda>r. month (created_at r) = m) ?fr)))
                     [Min ?M..<Suc (Max ?M)]"
    using ne valid by (rule resample_M_size_one_year)
  also have "\<dots> = map (\<lambda>m. ((y, m),
                        length (filter (\<lambda>r. year (created_at r) = y \<and> month (created_at r) = m) df)))
                     [Min ?M..<Suc (Max ?M)]"
    by (simp add: year_frame_def conj_commute)
  finally have tc: "tweet_counts = map (\<lambda>m. ((y, m),
                        length (filter (\<lambda>r. year (created_at r) = y \<and> month (created_at r) = m) df)))
                     [Min ?M..<Suc (Max ?M)]" .
  then have "length tweet_counts = Max ?M - Min ?M + 1"
    using le by simp
  with bounds le tc show ?thesis by blast
qed

theorem monthly_counts_first_to_last_month_witness:
  "2020 \<in> set (years sample_frame) \<and>
   list_all (\<lambda>r. 1 \<le> month (created_at r) \<and> month (created_at r) \<le> 12) sample_frame \<and>
   analyze_year id sample_nlp (year_frame sample_frame 2020) =
     Inr ([((2020, 3), 1), ((2020, 4), 0), ((2020, 5), 0), ((2020, 6), 1)],
          [(str ''GPE'', 2), (str ''PERSON'', 1)],
          [(str ''love'', 2), (str ''Paris'', 2), (str ''Anna'', 1)]) \<and>
   (\<exists>first last.
      first = Min ((\<lambda>r. month (created_at r)) ` set (year_frame sample_frame 2020)) \<and>
      last = Max ((\<lambda>r. month (created_at r)) ` set (year_frame sample_frame 2020)) \<and>
      1 \<le> first \<and> first \<le> last \<and> last \<le> 12 \<and>
      length [((2020::int, 3::nat), 1::nat), ((2020, 4), 0), ((2020, 5), 0), ((2020, 6), 1)] = last - first + 1 \<and>
      [((2020::int, 3::nat), 1::nat), ((2020, 4), 0), ((2020, 5), 0), ((2020, 6), 1)] =
        map (\<lambda>m. ((2020, m),
               length (filter (\<lambda>r. year (created_at r) = 2020 \<and> month (created_at r) = m) sample_frame)))
          [first..<Suc last])"
proof -
  have y: "2020 \<in> set (years sample_frame)" by (simp add: sample_years)
  have v: "list_all (\<lambda>r. 1 \<le> month (created_at r) \<and> month (created_at r) \<le> 12) sample_frame"
    using sample_months_valid by (simp only: list_all_iff)
  note c = monthly_counts_first_to_last_month [OF y sample_months_valid sample_year_2020]
  show ?thesis
    by (rule conjI [OF y conjI [OF v conjI [OF sample_year_2020 c]]])
qed

subsection \<open>The ranked entity table\<close>



subsection \<open>The lemma table\<close>

lemma content_lemmas_concat:
  "content_lemmas docs = map lemma_str (filter content_token (concat (map tokens docs)))"
  by (induction docs) (simp_all add: content_lemmas_def)

lemma mem_iff_count_list_pos: "x \<in> set xs \<longleftrightarrow> 0 < count_list xs x"
  using count_list_0_iff [of xs x] by auto

text \<open>
  C5. Whenever \<open>analyze_self_expression\<close> returns, the lemma table has one entry per
  lemma, and the count of a lemma is the number of tokens with that lemma that are not
  stop-words, not punctuation, and alphabetic: a token flagged as stop-word or punctuation,
  or not flagged alphabetic, adds to no entry. When every token of the batch is so flagged,
  the lemma table is empty.
\<close>

theorem lemma_table_counts_content_tokens:
  assumes "analyze_self_expression nlp texts = Inr (entities_count, lemmas_count)"
  shows "\<exists>docs. map nlp texts = map Inr docs \<and>
           (\<forall>l c. (l, c) \<in> set lemmas_count \<longleftrightarrow>
              0 < c \<and>
              c = length (filter (\<lambda>t. lemma_str t = l \<and> \<not> is_stop t \<and> \<not> is_punct t \<and> is_alpha t)
                            (concat (map tokens docs)))) \<and>
           distinct (map fst lemmas_count) \<and>
           ((\<forall>t \<in> set (concat (map tokens docs)). is_stop t \<or> is_punct t \<or> \<not> is_alpha t) \<longrightarrow>
              lemmas_count = [])"
proof -
  from assms obtain docs where docs: "map nlp texts = map Inr docs"
    and lc: "lemmas_count = Counter (content_lemmas docs)"
    unfolding analyze_self_expression_Inr_iff by blast
  let ?ts = "concat (map tokens docs)"
  have cnt: "count_list (content_lemmas docs) l =
      length (filter (\<lambda>t. lemma_str t = l \<and> \<not> is_stop t \<and> \<not> is_punct t \<and> is_alpha t) ?ts)" for l
  proof -
    have "count_list (content_lemmas docs) l =
        length (filter (\<lambda>t. lemma_str t = l) (filter content_token ?ts))"
      unfolding content_lemmas_concat by (rule count_list_map_filter)
    also have "filter (\<lambda>t. lemma_str t = l) (filter content_token ?ts) =
        filter (\<lambda>t. lemma_str t = l \<and> \<not> is_stop t \<and> \<not> is_punct t \<and> is_alpha t) ?ts"
      by (simp add: content_token_def conj_commute conj_left_commute)
    finally show ?thesis .
  qed
  have entries: "(l, c) \<in> set lemmas_count \<longleftrightarrow>
      0 < c \<and> c = length (filter (\<lambda>t. lemma_str t = l \<and> \<not> is_stop t \<and> \<not> is_punct t \<and> is_alpha t) ?ts)"
    for l c
  proof -
    have "(l, c) \<in> set lemmas_count \<longleftrightarrow>
        l \<in> set (content_lemmas docs) \<and> c = count_list (content_lemmas docs) l"
      unfolding lc by (rule Counter_entry_iff)
    also have "\<dots> \<longleftrightarrow> 0 < c \<and> c = count_list (content_lemmas docs) l"
      using mem_iff_count_list_pos [of l "content_lemmas docs"] by auto
    finally show ?thesis unfolding cnt .
  qed
  have dist: "distinct (map fst lemmas_count)"
    unfolding lc by (rule distinct_keys_Counter)
  have empty: "lemmas_count = []"
    if "\<forall>t \<in> set ?ts. is_stop t \<or> is_punct t \<or> \<not> is_alpha t"
  proof -
    from that have "filter content_token ?ts = []"
      by (auto simp: filter_empty_conv content_token_def)
    then show ?thesis by (simp add: lc content_lemmas_concat)
  qed
  from docs entries dist empty show ?thesis by blast
qed

lemma sample_tables_mixed:
  "analyze_self_expression sample_nlp [JStr (str ''I love Paris''), JStr (str ''it is'')] =
     Inr ([(str ''GPE'', 1)], [(str ''love'', 1), (str ''Paris'', 1)])"
  by code_simp

lemma sample_tables_stop_words:
  "analyze_self_expression sample_nlp [JStr (str ''it is'')] = Inr ([], [])"
  by code_simp

theorem lemma_table_counts_content_tokens_witness:
  "(analyze_self_expression sample_nlp [JStr (str ''I love Paris''), JStr (str ''it is'')] =
      Inr ([(str ''GPE'', 1)], [(str ''love'', 1), (str ''Paris'', 1)]) \<and>
    (\<exists>docs. map sample_nlp [JStr (str ''I love Paris''), JStr (str ''it is'')] = map Inr docs \<and>
       (\<forall>l c. (l, c) \<in> set [(str ''love'', 1), (str ''Paris'', 1)] \<longleftrightarrow>
          0 < c \<and>
          c = length (filter (\<lambda>t. lemma_str t = l \<and> \<not> is_stop t \<and> \<not> is_punct t \<and> is_alpha t)
                        (concat (map tokens docs)))) \<and>
       distinct (map fst [(str ''love'', 1::nat), (str ''Paris'', 1)]) \<and>
       ((\<forall>t \<in> set (concat (map tokens docs)). is_stop t \<or> is_punct t \<or> \<not> is_alpha t) \<longrightarrow>
          [(str ''love'', 1::nat), (str ''Paris'', 1)] = []))) \<and>
   (analyze_self_expression sample_nlp [JStr (str ''it is'')] = Inr ([], []) \<and>
    (\<exists>docs. map sample_nlp [JStr (str ''it is'')] = map Inr docs \<and>
       list_all (\<lambda>t. is_stop t \<or> is_punct t \<or> \<not> is_alpha t) (concat (map tokens docs))))"
proof -
  note a = lemma_table_counts_content_tokens [OF sample_tables_mixed]
  have b: "\<exists>docs. map sample_nlp [JStr (str ''it is'')] = map Inr docs \<and>
       list_all (\<lambda>t. is_stop t \<or> is_punct t \<or> \<not> is_alpha t) (concat (map tokens docs))"
    by (rule exI [of _ "[\<lparr>ents = [], tokens = [tok ''it'' True False True, tok ''be'' True False True]\<rparr>]"])
       (simp add: sample_nlp_def str_def tok_def)
  show ?thesis
    by (rule conjI [OF conjI [OF sample_tables_mixed a] conjI [OF sample_tables_stop_words b]])
qed

subsection \<open>Two runs on the same input\<close>




subsection \<open>The extractor on an empty batch\<close>

text \<open>
  C10. Applied to an empty batch of texts, \<open>analyze_self_expression\<close> returns an empty
  entity-label table and an empty lemma table, and raises nothing, whatever the annotator.
\<close>

theorem analyze_self_expression_empty_batch:
  "analyze_self_expression nlp [] = Inr ([], [])"
  by (simp add: analyze_self_expression_def entity_labels_def content_lemmas_def)

end
